theory Spec2Isabelle
  imports Main "HOL-Library.Word"
begin

section \<open>JavaScript strings\<close>

text \<open>
  A JavaScript string is a sequence of UTF-16 code units. String literals of the source
  are written with \<open>ustr\<close>, which maps every ASCII character to its code unit.
\<close>

type_synonym jschar = "16 word"
type_synonym jsstring = "jschar list"

definition ustr :: "string \<Rightarrow> jsstring" where
  "ustr s = map of_char s"

text \<open>
  The code units that \<^verbatim>\<open>String.prototype.trim\<close> removes and that the regular
  expression class \<^verbatim>\<open>\s\<close> matches: the ECMAScript WhiteSpace and LineTerminator
  code points.
\<close>

definition isJsSpace :: "jschar \<Rightarrow> bool" where
  "isJsSpace c \<longleftrightarrow>
     c = 0x0009 \<or> c = 0x000A \<or> c = 0x000B \<or> c = 0x000C \<or> c = 0x000D \<or> c = 0x0020 \<or>
     c = 0x00A0 \<or> c = 0x1680 \<or> (0x2000 \<le> c \<and> c \<le> 0x200A) \<or> c = 0x2028 \<or>
     c = 0x2029 \<or> c = 0x202F \<or> c = 0x205F \<or> c = 0x3000 \<or> c = 0xFEFF"

definition trimStart :: "jsstring \<Rightarrow> jsstring" where
  "trimStart s = dropWhile isJsSpace s"

definition trimEnd :: "jsstring \<Rightarrow> jsstring" where
  "trimEnd s = rev (dropWhile isJsSpace (rev s))"

definition trim :: "jsstring \<Rightarrow> jsstring" where
  "trim s = trimEnd (trimStart s)"

text \<open>\<^verbatim>\<open>s.split(sep)\<close> for a one-unit separator: the result is never empty.\<close>

fun split :: "jschar \<Rightarrow> jsstring \<Rightarrow> jsstring list" where
  "split sep [] = [[]]"
| "split sep (c # cs) =
     (if c = sep then [] # split sep cs
      else (case split sep cs of [] \<Rightarrow> [[c]] | w # ws \<Rightarrow> (c # w) # ws))"

text \<open>\<^verbatim>\<open>ws.join(sep)\<close>.\<close>

fun join :: "jsstring \<Rightarrow> jsstring list \<Rightarrow> jsstring" where
  "join sep [] = []"
| "join sep [w] = w"
| "join sep (w # ws) = w @ sep @ join sep ws"

text \<open>\<^verbatim>\<open>s.substring(0, n)\<close>, \<^verbatim>\<open>s.slice(n)\<close> and \<^verbatim>\<open>s.startsWith(p)\<close>.\<close>

definition substring0 :: "nat \<Rightarrow> jsstring \<Rightarrow> jsstring" where
  "substring0 n s = take n s"

definition slice :: "nat \<Rightarrow> jsstring \<Rightarrow> jsstring" where
  "slice n s = drop n s"

definition startsWith :: "jsstring \<Rightarrow> jsstring \<Rightarrow> bool" where
  "startsWith p s \<longleftrightarrow> take (length p) s = p"

text \<open>The decimal rendering of a non-negative integer inside a template literal.\<close>

fun showNat :: "nat \<Rightarrow> jsstring" where
  "showNat n =
     (if n < 10 then [of_nat (48 + n)]
      else showNat (n div 10) @ [of_nat (48 + n mod 10)])"

declare showNat.simps [simp del]

section \<open>Data model\<close>

text \<open>
  \<^verbatim>\<open>interface Message\<close> of ChatWindow.tsx and \<^verbatim>\<open>interface Conversation\<close> of
  AIAssistant.tsx. Optional fields are options; a \<^verbatim>\<open>Date\<close> is its millisecond count.
\<close>

datatype msgType = User | Assistant

datatype msgStatus = Sending | Sent | Error

record Message =
  id_m :: jsstring
  type_m :: msgType
  content :: jsstring
  timestamp_m :: nat
  isTyping_m :: "bool option"
  hasAudio :: "bool option"
  audioUrl :: "jsstring option"
  status :: "msgStatus option"

record Conversation =
  id_c :: jsstring
  title :: jsstring
  timestamp_c :: nat
  isPinned :: bool
  preview :: jsstring
  messages :: "Message list"

text \<open>
  The state of the \<^verbatim>\<open>AIAssistant\<close> component that the conversation store consists of:
  the \<^verbatim>\<open>useState\<close> cells \<^verbatim>\<open>conversations\<close>, \<^verbatim>\<open>activeConversationId\<close> and
  \<^verbatim>\<open>isLoading\<close>. Toast notifications and the console do not touch the store and are
  left out.
\<close>

record Store =
  conversations :: "Conversation list"
  activeConversationId :: "jsstring option"
  isLoading :: bool

section \<open>Conversation store operations (AIAssistant.tsx)\<close>

definition updateConversationMessages :: "jsstring \<Rightarrow> Message list \<Rightarrow> Store \<Rightarrow> Store" where
  "updateConversationMessages conversationId newMessages st =
     st\<lparr>conversations :=
          map (\<lambda>conv. if id_c conv = conversationId then conv\<lparr>messages := newMessages\<rparr> else conv)
              (conversations st)\<rparr>"

definition generateTitle :: "jsstring \<Rightarrow> jsstring" where
  "generateTitle message =
     (let words = take 4 (split 0x20 message)
      in join (ustr '' '') words @ (if length (split 0x20 message) > 4 then ustr ''...'' else []))"

definition updateConversationMetadata :: "jsstring \<Rightarrow> jsstring \<Rightarrow> nat \<Rightarrow> Store \<Rightarrow> Store" where
  "updateConversationMetadata conversationId lastMessage now st =
     st\<lparr>conversations :=
          map (\<lambda>conv. if id_c conv = conversationId
                      then conv\<lparr>title := (if title conv = ustr ''New Conversation''
                                          then generateTitle lastMessage else title conv),
                                preview := substring0 50 lastMessage @
                                           (if length lastMessage > 50 then ustr ''...'' else []),
                                timestamp_c := now\<rparr>
                      else conv)
              (conversations st)\<rparr>"

definition renameConversation :: "jsstring \<Rightarrow> jsstring \<Rightarrow> Store \<Rightarrow> Store" where
  "renameConversation i newTitle st =
     st\<lparr>conversations :=
          map (\<lambda>conv. if id_c conv = i then conv\<lparr>title := newTitle\<rparr> else conv)
              (conversations st)\<rparr>"

definition pinConversation :: "jsstring \<Rightarrow> Store \<Rightarrow> Store" where
  "pinConversation i st =
     st\<lparr>conversations :=
          map (\<lambda>conv. if id_c conv = i then conv\<lparr>isPinned := \<not> isPinned conv\<rparr> else conv)
              (conversations st)\<rparr>"

text \<open>
  \<^verbatim>\<open>filtered[0]?.id || null\<close>: the id of the first remaining conversation, or null when
  nothing remains or that id is the empty string (which is falsy).
\<close>

definition firstIdOrNull :: "Conversation list \<Rightarrow> jsstring option" where
  "firstIdOrNull filtered =
     (case filtered of [] \<Rightarrow> None
      | conv # _ \<Rightarrow> if id_c conv = [] then None else Some (id_c conv))"

definition deleteConversation :: "jsstring \<Rightarrow> Store \<Rightarrow> Store" where
  "deleteConversation i st =
     (let filtered = filter (\<lambda>conv. id_c conv \<noteq> i) (conversations st)
      in st\<lparr>conversations := filtered,
            activeConversationId :=
              (if Some i = activeConversationId st then firstIdOrNull filtered
               else activeConversationId st)\<rparr>)"

definition createNewConversation :: "nat \<Rightarrow> nat \<Rightarrow> Store \<Rightarrow> Store" where
  "createNewConversation dateNow now st =
     (let newConversation =
            \<lparr>id_c = ustr ''conv-'' @ showNat dateNow, title = ustr ''New Conversation'',
             timestamp_c = now, isPinned = False, preview = ustr ''Start a new conversation'',
             messages = []\<rparr>
      in st\<lparr>conversations := newConversation # conversations st,
            activeConversationId := Some (id_c newConversation)\<rparr>)"

definition selectConversation :: "jsstring \<Rightarrow> Store \<Rightarrow> Store" where
  "selectConversation i st = st\<lparr>activeConversationId := Some i\<rparr>"

definition handleClearHistory :: "Store \<Rightarrow> Store" where
  "handleClearHistory st = st\<lparr>conversations := [], activeConversationId := None\<rparr>"

text \<open>
  The effect that runs after a render in which \<^verbatim>\<open>conversations.length === 0\<close>: it installs
  the default conversation.
\<close>

definition initEffect :: "nat \<Rightarrow> Store \<Rightarrow> Store" where
  "initEffect now st =
     (if length (conversations st) = 0
      then st\<lparr>conversations :=
                [\<lparr>id_c = ustr ''default'', title = ustr ''New Conversation'', timestamp_c = now,
                  isPinned = False, preview = ustr ''Welcome to AI Assistant'', messages = []\<rparr>],
              activeConversationId := Some (ustr ''default'')\<rparr>
      else st)"

text \<open>\<^verbatim>\<open>conversations.find(c => c.id === activeConversationId)\<close> and the derived message list.\<close>

definition findConversation :: "jsstring \<Rightarrow> Conversation list \<Rightarrow> Conversation option" where
  "findConversation i convs = find (\<lambda>c. id_c c = i) convs"

definition activeConversation :: "Store \<Rightarrow> Conversation option" where
  "activeConversation st =
     (case activeConversationId st of None \<Rightarrow> None
      | Some i \<Rightarrow> findConversation i (conversations st))"

definition activeMessages :: "Store \<Rightarrow> Message list" where
  "activeMessages st = (case activeConversation st of None \<Rightarrow> [] | Some c \<Rightarrow> messages c)"

section \<open>Sending a message (handleSendMessage and callAI, AIAssistant.tsx)\<close>

text \<open>
  What the \<^verbatim>\<open>fetch\<close> of \<^verbatim>\<open>callAI\<close> can come back with: a rejected promise, a response
  that is not ok, a body that is not JSON, or an ok response whose JSON may hold the text at
  \<^verbatim>\<open>candidates[0].content.parts[0].text\<close>.
\<close>

datatype fetchResult = NetworkError | HttpNotOk nat | BadBody | HttpOk "jsstring option"

datatype aiError = ApiError

definition callAI :: "fetchResult \<Rightarrow> aiError + jsstring" where
  "callAI r =
     (case r of
        HttpOk t \<Rightarrow>
          (case t of
             None \<Rightarrow> Inr (ustr ''Sorry, I could not generate a response.'')
           | Some x \<Rightarrow> Inr (if x = [] then ustr ''Sorry, I could not generate a response.'' else x))
      | _ \<Rightarrow> Inl ApiError)"

text \<open>
  What the closure of one \<^verbatim>\<open>handleSendMessage\<close> call holds on to while the request is
  under way: the active id and the message list of the render it was called in, the user
  message it built and the text it was given.
\<close>

record Pending =
  capturedId :: jsstring
  capturedMessages :: "Message list"
  userMessage :: Message
  rawContent :: jsstring

text \<open>The values of the clock at the places where the handler reads it.\<close>

record SendClock =
  userIdNow :: nat
  userTime :: nat
  assistantIdNow :: nat
  assistantTime :: nat
  metadataTime :: nat

text \<open>The user message and the assistant message that the handler builds.\<close>

definition newUserMessage :: "jsstring \<Rightarrow> SendClock \<Rightarrow> Message" where
  "newUserMessage text clk =
     \<lparr>id_m = ustr ''user-'' @ showNat (userIdNow clk), type_m = User, content = trim text,
      timestamp_m = userTime clk, isTyping_m = None, hasAudio = None, audioUrl = None,
      status = Some Sending\<rparr>"

definition newAssistantMessage :: "jsstring \<Rightarrow> SendClock \<Rightarrow> Message" where
  "newAssistantMessage aiResponse clk =
     \<lparr>id_m = ustr ''assistant-'' @ showNat (assistantIdNow clk), type_m = Assistant,
      content = aiResponse, timestamp_m = assistantTime clk, isTyping_m = None, hasAudio = None,
      audioUrl = None, status = None\<rparr>"

text \<open>
  The synchronous part, up to the \<^verbatim>\<open>await\<close>: the guard, the optimistic insert and
  \<^verbatim>\<open>setIsLoading(true)\<close>. \<open>None\<close> is the early return.
\<close>

definition sendStart :: "jsstring \<Rightarrow> SendClock \<Rightarrow> Store \<Rightarrow> (Store \<times> Pending) option" where
  "sendStart text clk st =
     (case activeConversationId st of
        None \<Rightarrow> None
      | Some aid \<Rightarrow>
          if aid = [] \<or> trim text = [] then None
          else
            (let user = newUserMessage text clk;
                 msgs = activeMessages st
             in Some ((updateConversationMessages aid (msgs @ [user]) st)\<lparr>isLoading := True\<rparr>,
                      \<lparr>capturedId = aid, capturedMessages = msgs, userMessage = user,
                       rawContent = text\<rparr>)))"

text \<open>The callback of \<^verbatim>\<open>setTimeout(..., 100)\<close>.\<close>

definition timerCallback :: "Pending \<Rightarrow> Store \<Rightarrow> Store" where
  "timerCallback p st =
     updateConversationMessages (capturedId p)
       (capturedMessages p @ [(userMessage p)\<lparr>status := Some Sent\<rparr>]) st"

text \<open>The rest of the handler after the \<^verbatim>\<open>await\<close>: the try branch, the catch branch, finally.\<close>

definition afterResponse :: "Pending \<Rightarrow> fetchResult \<Rightarrow> SendClock \<Rightarrow> Store \<Rightarrow> Store" where
  "afterResponse p r clk st =
     (case callAI r of
        Inr aiResponse \<Rightarrow>
          (let assistantMessage = newAssistantMessage aiResponse clk;
               st1 = updateConversationMessages (capturedId p)
                       (capturedMessages p @ [(userMessage p)\<lparr>status := Some Sent\<rparr>, assistantMessage])
                       st;
               st2 = updateConversationMetadata (capturedId p) (rawContent p) (metadataTime clk) st1
           in st2\<lparr>isLoading := False\<rparr>)
      | Inl _ \<Rightarrow>
          (updateConversationMessages (capturedId p)
             (capturedMessages p @ [(userMessage p)\<lparr>status := Some Error\<rparr>]) st)
          \<lparr>isLoading := False\<rparr>)"

text \<open>
  The timer and the request run independently: either the timer callback runs before the
  handler resumes, or after it.
\<close>

datatype interleaving = TimerFirst | ResponseFirst

text \<open>One whole round trip of \<^verbatim>\<open>handleSendMessage\<close>, with nothing else touching the store.\<close>

definition handleSendMessage ::
    "jsstring \<Rightarrow> SendClock \<Rightarrow> fetchResult \<Rightarrow> interleaving \<Rightarrow> Store \<Rightarrow> Store" where
  "handleSendMessage text clk r order st =
     (case sendStart text clk st of
        None \<Rightarrow> st
      | Some (st1, p) \<Rightarrow>
          (case order of
             TimerFirst \<Rightarrow> afterResponse p r clk (timerCallback p st1)
           | ResponseFirst \<Rightarrow> timerCallback p (afterResponse p r clk st1)))"

section \<open>Renaming in the conversation browser (ConversationHistory.tsx)\<close>

record History =
  editingId :: "jsstring option"
  editTitle :: jsstring
  selectedConversationId :: "jsstring option"
  currentMessageIndex_h :: int

definition handleStartEdit :: "jsstring \<Rightarrow> jsstring \<Rightarrow> History \<Rightarrow> History" where
  "handleStartEdit i currentTitle h = h\<lparr>editingId := Some i, editTitle := currentTitle\<rparr>"

text \<open>
  \<^verbatim>\<open>handleSaveEdit\<close>, with \<^verbatim>\<open>onRenameConversation\<close> bound to \<^verbatim>\<open>renameConversation\<close> as
  AIAssistant.tsx passes it.
\<close>

definition handleSaveEdit :: "History \<Rightarrow> Store \<Rightarrow> History \<times> Store" where
  "handleSaveEdit h st =
     (let st' = (case editingId h of
                   None \<Rightarrow> st
                 | Some i \<Rightarrow>
                     if i \<noteq> [] \<and> trim (editTitle h) \<noteq> []
                     then renameConversation i (trim (editTitle h)) st else st)
      in (h\<lparr>editingId := None, editTitle := []\<rparr>, st'))"

definition handleCancelEdit :: "History \<Rightarrow> History" where
  "handleCancelEdit h = h\<lparr>editingId := None, editTitle := []\<rparr>"

section \<open>Store mutations by id, the active-conversation invariant, example stores\<close>

text \<open>The four mutations that address a conversation by its id, as one family.\<close>

datatype mutation =
    SetMessages "Message list"
  | Rename jsstring
  | TogglePin
  | UpdateMetadata jsstring nat

fun applyMutation :: "jsstring \<Rightarrow> mutation \<Rightarrow> Store \<Rightarrow> Store" where
  "applyMutation i (SetMessages newMessages) st = updateConversationMessages i newMessages st"
| "applyMutation i (Rename newTitle) st = renameConversation i newTitle st"
| "applyMutation i TogglePin st = pinConversation i st"
| "applyMutation i (UpdateMetadata lastMessage now) st =
     updateConversationMetadata i lastMessage now st"

definition conversationIds :: "Store \<Rightarrow> jsstring set" where
  "conversationIds st = id_c ` set (conversations st)"

text \<open>
  The active-conversation invariant: there is an active id exactly when the collection is
  non-empty, and the active id is the id of a conversation of the collection.
\<close>

definition activeInvariant :: "Store \<Rightarrow> bool" where
  "activeInvariant st \<longleftrightarrow>
     (activeConversationId st \<noteq> None \<longleftrightarrow> conversations st \<noteq> []) \<and>
     (case activeConversationId st of None \<Rightarrow> True | Some a \<Rightarrow> a \<in> conversationIds st)"

text \<open>
  Every id the component gives a conversation is a non-empty string (\<^verbatim>\<open>'default'\<close> or
  \<^verbatim>\<open>conv-\<close> followed by a number).
\<close>

definition idsNonEmpty :: "Store \<Rightarrow> bool" where
  "idsNonEmpty st \<longleftrightarrow> list_all (\<lambda>c. id_c c \<noteq> []) (conversations st)"

text \<open>
  The operations of the conversation list: toggling the pin (pin and unpin), renaming and
  deleting, and a sequence of them applied from left to right.
\<close>

datatype storeOp = TogglePinOp jsstring | RenameOp jsstring jsstring | DeleteOp jsstring

fun applyOp :: "storeOp \<Rightarrow> Store \<Rightarrow> Store" where
  "applyOp (TogglePinOp i) st = pinConversation i st"
| "applyOp (RenameOp i newTitle) st = renameConversation i newTitle st"
| "applyOp (DeleteOp i) st = deleteConversation i st"

fun applyOps :: "storeOp list \<Rightarrow> Store \<Rightarrow> Store" where
  "applyOps [] st = st"
| "applyOps (x # xs) st = applyOps xs (applyOp x st)"

definition wellFormed :: "Store \<Rightarrow> bool" where
  "wellFormed st \<longleftrightarrow> activeInvariant st \<and> idsNonEmpty st"

text \<open>A store with two conversations, the first one active.\<close>

definition sampleConversation :: "jsstring \<Rightarrow> jsstring \<Rightarrow> Conversation" where
  "sampleConversation i t =
     \<lparr>id_c = i, title = t, timestamp_c = 0, isPinned = False, preview = [], messages = []\<rparr>"

definition store2 :: Store where
  "store2 =
     \<lparr>conversations = [sampleConversation (ustr ''a'') (ustr ''A''),
                       sampleConversation (ustr ''b'') (ustr ''B'')],
      activeConversationId = Some (ustr ''a''), isLoading = False\<rparr>"

text \<open>Reading a title back by id; the state of the browser before any edit.\<close>

definition titlesNonEmpty :: "Store \<Rightarrow> bool" where
  "titlesNonEmpty st \<longleftrightarrow> list_all (\<lambda>c. title c \<noteq> []) (conversations st)"

definition titleOf :: "jsstring \<Rightarrow> Store \<Rightarrow> jsstring option" where
  "titleOf i st = map_option title (findConversation i (conversations st))"

definition history0 :: History where
  "history0 = \<lparr>editingId = None, editTitle = [], selectedConversationId = None,
               currentMessageIndex_h = 0\<rparr>"

section \<open>Thread view (ChatWindow component with message navigation)\<close>

text \<open>
  The \<^verbatim>\<open>ChatWindow\<close> component that has the navigation controls. Its two state cells are
  \<^verbatim>\<open>currentMessageIndex\<close> (a number or null) and \<^verbatim>\<open>isNavigationMode\<close>; the message
  list and the typing flag are props. The file \<^verbatim>\<open>ChatWindow.tsx\<close> holds a variant of the
  component without navigation, whose only effect scrolls to the bottom unconditionally.
\<close>

record ChatNav =
  currentMessageIndex :: "int option"
  isNavigationMode :: bool

datatype direction = Up | Down

definition navigateToMessage :: "Message list \<Rightarrow> direction \<Rightarrow> ChatNav \<Rightarrow> ChatNav" where
  "navigateToMessage msgs direction nav =
     (if length msgs = 0 then nav
      else
        (case currentMessageIndex nav of
           None \<Rightarrow> nav\<lparr>currentMessageIndex := Some (int (length msgs) - 1),
                       isNavigationMode := True\<rparr>
         | Some i \<Rightarrow>
             (let newIndex = (case direction of
                                Up \<Rightarrow> max 0 (i - 1)
                              | Down \<Rightarrow> min (int (length msgs) - 1) (i + 1))
              in nav\<lparr>currentMessageIndex := Some newIndex\<rparr>)))"

text \<open>The scroll requests the component issues: to the bottom marker, or to a message by id.\<close>

datatype scroll = ScrollToBottom | ScrollToMessage jsstring

definition exitNavigationMode :: "ChatNav \<Rightarrow> ChatNav \<times> scroll list" where
  "exitNavigationMode nav =
     (nav\<lparr>isNavigationMode := False, currentMessageIndex := None\<rparr>, [ScrollToBottom])"

text \<open>
  The body of the effect with dependencies \<^verbatim>\<open>[messages, isTyping, isNavigationMode]\<close>.
\<close>

definition autoScrollEffect :: "ChatNav \<Rightarrow> scroll list" where
  "autoScrollEffect nav = (if \<not> isNavigationMode nav then [ScrollToBottom] else [])"

text \<open>
  The body of the effect with dependencies
  \<^verbatim>\<open>[currentMessageIndex, isNavigationMode, messages]\<close>: \<^verbatim>\<open>messages[i]?.id\<close> is undefined
  out of range, and an empty id is falsy. The element of a listed message is taken to exist.
\<close>

definition scrollToMessageEffect :: "Message list \<Rightarrow> ChatNav \<Rightarrow> scroll list" where
  "scrollToMessageEffect msgs nav =
     (case currentMessageIndex nav of
        None \<Rightarrow> []
      | Some i \<Rightarrow>
          if isNavigationMode nav \<and> 0 \<le> i \<and> i < int (length msgs) \<and> id_m (msgs ! nat i) \<noteq> []
          then [ScrollToMessage (id_m (msgs ! nat i))] else [])"

text \<open>
  One step of the component: an event changes a prop or a state cell, the component renders
  again, and then every effect runs of which a dependency has changed. A new message list is
  a new array, so it always counts as changed.
\<close>

record ChatView =
  messages_v :: "Message list"
  isTyping :: bool
  navState :: ChatNav

datatype chatEvent =
    MessagesChanged "Message list"
  | TypingChanged bool
  | NavigateClick direction
  | ExitClick

definition handleEvent :: "ChatView \<Rightarrow> chatEvent \<Rightarrow> ChatView \<times> scroll list" where
  "handleEvent v e =
     (case e of
        MessagesChanged ms \<Rightarrow> (v\<lparr>messages_v := ms\<rparr>, [])
      | TypingChanged b \<Rightarrow> (v\<lparr>isTyping := b\<rparr>, [])
      | NavigateClick d \<Rightarrow> (v\<lparr>navState := navigateToMessage (messages_v v) d (navState v)\<rparr>, [])
      | ExitClick \<Rightarrow>
          (v\<lparr>navState := fst (exitNavigationMode (navState v))\<rparr>,
           snd (exitNavigationMode (navState v))))"

definition messagesChanged :: "chatEvent \<Rightarrow> bool" where
  "messagesChanged e = (case e of MessagesChanged _ \<Rightarrow> True | _ \<Rightarrow> False)"

definition chatStep :: "ChatView \<Rightarrow> chatEvent \<Rightarrow> ChatView \<times> scroll list" where
  "chatStep v e =
     (let v' = fst (handleEvent v e);
          modeChanged = (isNavigationMode (navState v') \<noteq> isNavigationMode (navState v));
          indexChanged = (currentMessageIndex (navState v') \<noteq> currentMessageIndex (navState v));
          auto = (if messagesChanged e \<or> isTyping v' \<noteq> isTyping v \<or> modeChanged
                  then autoScrollEffect (navState v') else []);
          toMessage = (if indexChanged \<or> modeChanged \<or> messagesChanged e
                       then scrollToMessageEffect (messages_v v') (navState v') else [])
      in (v', snd (handleEvent v e) @ auto @ toMessage))"

text \<open>The initial state cells, and a run of navigation steps over a fixed message list.\<close>

definition navInit :: ChatNav where
  "navInit = \<lparr>currentMessageIndex = None, isNavigationMode = False\<rparr>"

fun navigateAll :: "Message list \<Rightarrow> direction list \<Rightarrow> ChatNav \<Rightarrow> ChatNav" where
  "navigateAll msgs [] nav = nav"
| "navigateAll msgs (d # ds) nav = navigateAll msgs ds (navigateToMessage msgs d nav)"

definition cursorInRange :: "Message list \<Rightarrow> ChatNav \<Rightarrow> bool" where
  "cursorInRange msgs nav \<longleftrightarrow>
     (case currentMessageIndex nav of None \<Rightarrow> False
      | Some i \<Rightarrow> 0 \<le> i \<and> i \<le> int (length msgs) - 1)"

text \<open>A message with a given id, for examples.\<close>

definition sampleMessage :: "jsstring \<Rightarrow> Message" where
  "sampleMessage i =
     \<lparr>id_m = i, type_m = User, content = [], timestamp_m = 0, isTyping_m = None,
      hasAudio = None, audioUrl = None, status = None\<rparr>"

section \<open>Message formatting (formatMessageContent of the ChatWindow component)\<close>

text \<open>
  What a line is rendered as: a \<^verbatim>\<open>pre\<close> block with its text, a bulleted row with its text,
  or a paragraph with its inner HTML.
\<close>

datatype segment = Pre jsstring | Bullet jsstring | Paragraph jsstring

text \<open>
  \<^verbatim>\<open>line.replace(/\*\*(.*?)\*\*/g, '<strong>$1</strong>')\<close>. The dot matches any code unit
  but a line terminator, and the group is lazy: after an opening pair of asterisks,
  \<open>findClose\<close> looks for the nearest closing pair and returns the text between and the text
  after. Where no closing pair can be reached the opening asterisk stays as it is and the
  scan goes on one unit further.
\<close>

definition isLineTerminator :: "jschar \<Rightarrow> bool" where
  "isLineTerminator c \<longleftrightarrow> c = 0x000A \<or> c = 0x000D \<or> c = 0x2028 \<or> c = 0x2029"

fun findClose :: "jsstring \<Rightarrow> (jsstring \<times> jsstring) option" where
  "findClose [] = None"
| "findClose (c # cs) =
     (if startsWith (ustr ''**'') (c # cs) then Some ([], drop 1 cs)
      else if isLineTerminator c then None
      else (case findClose cs of
              None \<Rightarrow> None
            | Some (inner, rest) \<Rightarrow> Some (c # inner, rest)))"

function boldReplace :: "jsstring \<Rightarrow> jsstring" where
  "boldReplace [] = []"
| "boldReplace (c # cs) =
     (if startsWith (ustr ''**'') (c # cs)
      then (case findClose (drop 1 cs) of
              Some (inner, rest) \<Rightarrow>
                ustr ''<strong>'' @ inner @ ustr ''</strong>'' @ boldReplace rest
            | None \<Rightarrow> c # boldReplace cs)
      else c # boldReplace cs)"
  by pat_completeness auto
termination
proof (relation "measure length")
  show "wf (measure length)" by simp
next
  fix c :: jschar and cs x2 :: jsstring and inner rest :: jsstring and xa
  assume "findClose (drop 1 cs) = Some xa" and "(inner, rest) = xa"
  then have fc: "findClose (drop 1 cs) = Some (inner, rest)" by simp
  have "length r \<le> length s" if "findClose s = Some (i, r)" for s i r
    using that
    by (induction s arbitrary: i r) (auto split: if_splits option.splits)
  from this [OF fc] show "(rest, c # cs) \<in> measure length" by simp
qed simp_all

text \<open>The removal of a leading bullet (code unit 0x2022) or hyphen and of the white space after it.\<close>

definition stripMarker :: "jsstring \<Rightarrow> jsstring" where
  "stripMarker line =
     (case line of
        [] \<Rightarrow> []
      | c # cs \<Rightarrow> if c = 0x2022 \<or> c = 0x002D then dropWhile isJsSpace cs else line)"

definition formatLine :: "jsstring \<Rightarrow> segment" where
  "formatLine line =
     (if startsWith (ustr ''```'') line then Pre (slice 3 line)
      else if startsWith [0x2022] (trim line) \<or> startsWith (ustr ''-'') (trim line)
           then Bullet (stripMarker line)
      else Paragraph (boldReplace line))"

definition formatMessageContent :: "jsstring \<Rightarrow> segment list" where
  "formatMessageContent text = map formatLine (split 0x000A text)"

text \<open>The three-line input of the formatter example.\<close>

definition formatterInput :: jsstring where
  "formatterInput = ustr ''**bold** line'' @ [0x000A] @ ustr ''- item one'' @ [0x000A] @ ustr ''```code''"

section \<open>Input bar (InputBar.tsx)\<close>

text \<open>
  The state of the component: the draft and the listening flag. \<^verbatim>\<open>isLoading\<close> is a prop
  and is passed to each function. A handler returns the new state and the texts it handed to
  \<^verbatim>\<open>onSendMessage\<close>.
\<close>

record InputBar =
  message :: jsstring
  isListening :: bool

definition handleSubmit :: "bool \<Rightarrow> InputBar \<Rightarrow> InputBar \<times> jsstring list" where
  "handleSubmit loading ib =
     (if trim (message ib) \<noteq> [] \<and> \<not> loading
      then (ib\<lparr>message := []\<rparr>, [trim (message ib)])
      else (ib, []))"

datatype key = Enter | OtherKey

definition handleKeyDown :: "key \<Rightarrow> bool \<Rightarrow> bool \<Rightarrow> InputBar \<Rightarrow> InputBar \<times> jsstring list" where
  "handleKeyDown k shiftKey loading ib =
     (if k = Enter \<and> \<not> shiftKey then handleSubmit loading ib else (ib, []))"

definition handleVoiceTranscription :: "jsstring \<Rightarrow> InputBar \<Rightarrow> InputBar" where
  "handleVoiceTranscription transcript ib =
     ib\<lparr>message := message ib @ (if message ib \<noteq> [] then ustr '' '' else []) @ transcript,
        isListening := False\<rparr>"

definition handleTextareaChange :: "jsstring \<Rightarrow> InputBar \<Rightarrow> InputBar" where
  "handleTextareaChange v ib = ib\<lparr>message := v\<rparr>"

text \<open>The \<^verbatim>\<open>disabled\<close> attributes of the textarea and of the send button.\<close>

definition textareaDisabled :: "bool \<Rightarrow> InputBar \<Rightarrow> bool" where
  "textareaDisabled loading ib \<longleftrightarrow> loading \<or> isListening ib"

definition sendDisabled :: "bool \<Rightarrow> InputBar \<Rightarrow> bool" where
  "sendDisabled loading ib \<longleftrightarrow> trim (message ib) = [] \<or> loading \<or> isListening ib"

definition handleAudioGenerated :: "jsstring \<Rightarrow> InputBar \<Rightarrow> InputBar \<times> jsstring list" where
  "handleAudioGenerated script ib = (ib, [ustr ''Generated audio script: '' @ script])"

text \<open>
  The two user actions that can submit: a click on the send button and a key press in the
  textarea.
\<close>

datatype inputEvent = ClickSend | KeyDown key bool

text \<open>
  Modelled from the spec: the \<^verbatim>\<open>Button\<close> and \<^verbatim>\<open>Textarea\<close> primitives of
  \<^verbatim>\<open>components/ui\<close> are not among the sources. They are taken to pass \<^verbatim>\<open>disabled\<close> on to
  the control they render, so that a disabled control delivers no click and no key press to
  its handler (the spec: the submit action is disabled). An enabled control calls the handler
  the component gave it.
\<close>

definition inputStep :: "inputEvent \<Rightarrow> bool \<Rightarrow> InputBar \<Rightarrow> InputBar \<times> jsstring list" where
  "inputStep e loading ib =
     (case e of
        ClickSend \<Rightarrow> if sendDisabled loading ib then (ib, []) else handleSubmit loading ib
      | KeyDown k shiftKey \<Rightarrow>
          if textareaDisabled loading ib then (ib, []) else handleKeyDown k shiftKey loading ib)"

definition isSubmit :: "inputEvent \<Rightarrow> bool" where
  "isSubmit e = (case e of ClickSend \<Rightarrow> True | KeyDown k shiftKey \<Rightarrow> k = Enter \<and> \<not> shiftKey)"

section \<open>Observations and example data for sending\<close>

text \<open>The message at a position of the conversation with a given id, if there is one.\<close>

definition messageAt :: "jsstring \<Rightarrow> nat \<Rightarrow> Store \<Rightarrow> Message option" where
  "messageAt i n st =
     (case findConversation i (conversations st) of
        None \<Rightarrow> None
      | Some c \<Rightarrow> if n < length (messages c) then Some (messages c ! n) else None)"

text \<open>The store right after the component has installed its default conversation.\<close>

definition storeDefault :: Store where
  "storeDefault = initEffect 0 \<lparr>conversations = [], activeConversationId = None, isLoading = False\<rparr>"

definition helloText :: jsstring where
  "helloText = ustr ''Hello world this is a test''"

text \<open>What a conversation shows of its messages (author and status) and its title.\<close>

definition summary :: "Conversation \<Rightarrow> (msgType \<times> msgStatus option) list \<times> jsstring" where
  "summary c = (map (\<lambda>m. (type_m m, status m)) (messages c), title c)"

definition clock0 :: SendClock where
  "clock0 = \<lparr>userIdNow = 1000, userTime = 1000, assistantIdNow = 1050, assistantTime = 1050,
             metadataTime = 1050\<rparr>"

section \<open>Properties of splitting and joining\<close>

lemma split_no_sep: "sep \<notin> set w \<Longrightarrow> split sep w = [w]"
  by (induction w) auto

lemma split_append_sep: "sep \<notin> set w \<Longrightarrow> split sep (w @ sep # s) = w # split sep s"
  by (induction w) auto

lemma split_join:
  "ws \<noteq> [] \<Longrightarrow> \<forall>w\<in>set ws. sep \<notin> set w \<Longrightarrow> split sep (join [sep] ws) = ws"
proof (induction "[sep]" ws rule: join.induct)
  case 1
  then show ?case by simp
next
  case (2 w)
  then show ?case by (simp add: split_no_sep)
next
  case (3 w v vs)
  then show ?case by (simp add: split_append_sep)
qed

text \<open>
  For a text made of words separated by single blanks, the generated title is the first four
  words, followed by an ellipsis when there are more than four.
\<close>

lemma generateTitle_words:
  assumes "ws \<noteq> []" and "\<forall>w\<in>set ws. 0x20 \<notin> set w"
  shows "generateTitle (join (ustr '' '') ws) =
         join (ustr '' '') (take 4 ws) @ (if length ws > 4 then ustr ''...'' else [])"
proof -
  have b: "ustr '' '' = [0x20]" by (simp add: ustr_def)
  show ?thesis
    unfolding generateTitle_def b split_join [OF assms] Let_def by simp
qed

section \<open>Properties of the conversation store\<close>

lemma map_upd_other:
  assumes "k < length convs" "id_c (convs ! k) \<noteq> i"
  shows "map (\<lambda>conv. if id_c conv = i then f conv else conv) convs ! k = convs ! k"
  using assms by simp

lemma map_upd_absent:
  assumes "i \<notin> id_c ` set convs"
  shows "map (\<lambda>conv. if id_c conv = i then f conv else conv) convs = convs"
  using assms by (induction convs) auto

lemma frame_length:
  "length (conversations (applyMutation i m st)) = length (conversations st)"
  by (cases m)
     (simp_all add: updateConversationMessages_def renameConversation_def pinConversation_def
        updateConversationMetadata_def)

lemma frame_other:
  "k < length (conversations st) \<Longrightarrow> id_c (conversations st ! k) \<noteq> i \<Longrightarrow>
   conversations (applyMutation i m st) ! k = conversations st ! k"
  by (cases m)
     (simp_all add: updateConversationMessages_def renameConversation_def pinConversation_def
        updateConversationMetadata_def)

lemma frame_absent:
  "i \<notin> conversationIds st \<Longrightarrow> applyMutation i m st = st"
  by (cases m)
     (simp_all add: updateConversationMessages_def renameConversation_def pinConversation_def
        updateConversationMetadata_def conversationIds_def map_upd_absent)

lemma frame_active:
  "activeConversationId (applyMutation i m st) = activeConversationId st"
  by (cases m)
     (simp_all add: updateConversationMessages_def renameConversation_def pinConversation_def
        updateConversationMetadata_def)

text \<open>
  Claim C10. Replacing a conversation's message list, renaming it, toggling its pin and
  updating its metadata are maps over the collection that rewrite only entries with the given
  id: the collection keeps its length, every entry whose id differs is unchanged at its
  position, the active id is untouched, and when no entry has the given id the whole store is
  unchanged.
\<close>

theorem by_id_mutation_frame:
  "length (conversations (applyMutation i m st)) = length (conversations st) \<and>
   (\<forall>k < length (conversations st).
      id_c (conversations st ! k) \<noteq> i \<longrightarrow>
      conversations (applyMutation i m st) ! k = conversations st ! k) \<and>
   (i \<notin> conversationIds st \<longrightarrow> applyMutation i m st = st) \<and>
   activeConversationId (applyMutation i m st) = activeConversationId st"
  using frame_length frame_other frame_absent frame_active by blast

theorem by_id_mutation_frame_witness:
  "(0::nat) < length (conversations store2) \<and> id_c (conversations store2 ! 0) \<noteq> ustr ''b'' \<and>
   conversations (applyMutation (ustr ''b'') TogglePin store2) ! 0 = conversations store2 ! 0 \<and>
   ustr ''c'' \<notin> conversationIds store2 \<and>
   applyMutation (ustr ''c'') (Rename (ustr ''X'')) store2 = store2"
proof -
  have h1: "(0::nat) < length (conversations store2)" by (simp add: store2_def)
  have h2: "id_c (conversations store2 ! 0) \<noteq> ustr ''b''"
    by (simp add: store2_def sampleConversation_def ustr_def)
  have h3: "ustr ''c'' \<notin> conversationIds store2"
    by (simp add: store2_def sampleConversation_def ustr_def conversationIds_def)
  from by_id_mutation_frame [of "ustr ''b''" TogglePin store2] h1 h2
  have c1: "conversations (applyMutation (ustr ''b'') TogglePin store2) ! 0 = conversations store2 ! 0"
    by blast
  from by_id_mutation_frame [of "ustr ''c''" "Rename (ustr ''X'')" store2] h3
  have c2: "applyMutation (ustr ''c'') (Rename (ustr ''X'')) store2 = store2"
    by blast
  from h1 h2 h3 c1 c2 show ?thesis by blast
qed


lemma ids_map_upd:
  "(\<And>c. id_c (f c) = id_c c) \<Longrightarrow>
   map id_c (map (\<lambda>conv. if id_c conv = i then f conv else conv) convs) = map id_c convs"
  by (induction convs) auto

lemma pin_ids: "map id_c (conversations (pinConversation i st)) = map id_c (conversations st)"
  by (simp add: pinConversation_def ids_map_upd)

lemma rename_ids: "map id_c (conversations (renameConversation i t st)) = map id_c (conversations st)"
  by (simp add: renameConversation_def ids_map_upd)

lemma pin_active: "activeConversationId (pinConversation i st) = activeConversationId st"
  by (simp add: pinConversation_def)

lemma rename_active: "activeConversationId (renameConversation i t st) = activeConversationId st"
  by (simp add: renameConversation_def)

lemma wellFormed_ids_cong:
  assumes "map id_c (conversations st') = map id_c (conversations st)"
    and "activeConversationId st' = activeConversationId st"
  shows "wellFormed st' = wellFormed st"
proof -
  have s: "id_c ` set (conversations st') = id_c ` set (conversations st)"
    using assms(1) by (metis set_map)
  have e: "(conversations st' = []) = (conversations st = [])"
    using assms(1) by (metis map_is_Nil_conv)
  have n: "list_all (\<lambda>c. id_c c \<noteq> []) (conversations st') = list_all (\<lambda>c. id_c c \<noteq> []) (conversations st)"
    using s by (auto simp: list_all_iff) (metis imageI image_iff)+
  have s': "conversationIds st' = conversationIds st"
    by (simp add: conversationIds_def s)
  show ?thesis
    by (simp add: wellFormed_def activeInvariant_def idsNonEmpty_def s' e n assms(2)
          cong: option.case_cong)
qed

lemma firstIdOrNull_nonempty:
  "list_all (\<lambda>c. id_c c \<noteq> []) cs \<Longrightarrow>
   firstIdOrNull cs = (case cs of [] \<Rightarrow> None | c # _ \<Rightarrow> Some (id_c c))"
  by (cases cs) (simp_all add: firstIdOrNull_def)

lemma delete_wellFormed:
  assumes "wellFormed st"
  shows "wellFormed (deleteConversation i st)"
proof -
  let ?f = "filter (\<lambda>conv. id_c conv \<noteq> i) (conversations st)"
  have ne: "list_all (\<lambda>c. id_c c \<noteq> []) ?f"
    using assms by (auto simp: wellFormed_def idsNonEmpty_def list_all_iff)
  show ?thesis
  proof (cases "Some i = activeConversationId st")
    case True
    then show ?thesis
      using ne firstIdOrNull_nonempty [OF ne]
      by (cases ?f)
         (auto simp: wellFormed_def activeInvariant_def idsNonEmpty_def deleteConversation_def
            Let_def conversationIds_def)
  next
    case False
    then show ?thesis
      using ne assms
      by (cases "activeConversationId st")
         (auto simp: wellFormed_def activeInvariant_def idsNonEmpty_def deleteConversation_def
            Let_def conversationIds_def filter_empty_conv)
  qed
qed

lemma applyOp_wellFormed: "wellFormed st \<Longrightarrow> wellFormed (applyOp x st)"
proof (cases x)
  case (TogglePinOp i)
  then show "wellFormed st \<Longrightarrow> wellFormed (applyOp x st)"
    using wellFormed_ids_cong [OF pin_ids pin_active] by simp
next
  case (RenameOp i t)
  then show "wellFormed st \<Longrightarrow> wellFormed (applyOp x st)"
    using wellFormed_ids_cong [OF rename_ids rename_active] by simp
next
  case (DeleteOp i)
  then show "wellFormed st \<Longrightarrow> wellFormed (applyOp x st)"
    using delete_wellFormed by simp
qed

lemma applyOps_wellFormed: "wellFormed st \<Longrightarrow> wellFormed (applyOps xs st)"
  by (induction xs arbitrary: st) (simp_all add: applyOp_wellFormed)

text \<open>
  The stores the component builds are well formed: the two places that create a conversation
  give it a non-empty id and make it active, and clearing the history leaves no active id.
\<close>

lemma createNewConversation_wellFormed:
  "idsNonEmpty st \<Longrightarrow> wellFormed (createNewConversation dateNow now st)"
  by (simp add: wellFormed_def activeInvariant_def idsNonEmpty_def createNewConversation_def
        conversationIds_def Let_def ustr_def)

lemma initEffect_wellFormed:
  "wellFormed st \<Longrightarrow> wellFormed (initEffect now st)"
  by (simp add: wellFormed_def activeInvariant_def idsNonEmpty_def initEffect_def
        conversationIds_def ustr_def)

lemma handleClearHistory_wellFormed:
  "wellFormed (handleClearHistory st)"
  by (simp add: wellFormed_def activeInvariant_def idsNonEmpty_def handleClearHistory_def)

text \<open>
  Claim C3. Starting from a store in which the active-conversation invariant holds (there is
  an active id exactly when the collection is non-empty, and the active id is the id of a
  conversation in the collection) and whose conversation ids are non-empty strings, as every
  id the component creates is, the invariant holds again after any sequence of pin toggles,
  renames and deletions.
\<close>

theorem active_invariant_preserved:
  assumes "activeInvariant st" and "idsNonEmpty st"
  shows "activeInvariant (applyOps ops st)"
  using applyOps_wellFormed [of st ops] assms by (simp add: wellFormed_def)

theorem active_invariant_preserved_witness:
  "activeInvariant store2 \<and> idsNonEmpty store2 \<and>
   activeInvariant (applyOps [TogglePinOp (ustr ''a''), RenameOp (ustr ''b'') (ustr ''X''),
                              DeleteOp (ustr ''a''), DeleteOp (ustr ''b'')] store2)"
proof -
  have a: "activeInvariant store2"
    by (simp add: activeInvariant_def store2_def conversationIds_def sampleConversation_def)
  have n: "idsNonEmpty store2"
    by (simp add: idsNonEmpty_def store2_def sampleConversation_def ustr_def)
  from active_invariant_preserved [OF a n] a n show ?thesis by blast
qed

text \<open>
  Claim C4. Deleting the conversation that is active removes every conversation with that id
  and makes the first of the remaining conversations, in the order of the collection, the
  active one; when nothing remains the active id becomes none. Ids are non-empty strings, as
  every id the component creates is.
\<close>

theorem delete_active_selects_first:
  assumes "activeConversationId st = Some i" and "idsNonEmpty st"
  shows "conversations (deleteConversation i st) = filter (\<lambda>c. id_c c \<noteq> i) (conversations st) \<and>
         activeConversationId (deleteConversation i st) =
           (case filter (\<lambda>c. id_c c \<noteq> i) (conversations st) of
              [] \<Rightarrow> None
            | c # _ \<Rightarrow> Some (id_c c))"
proof -
  let ?f = "filter (\<lambda>c. id_c c \<noteq> i) (conversations st)"
  have ne: "list_all (\<lambda>c. id_c c \<noteq> []) ?f"
    using assms(2) by (auto simp: idsNonEmpty_def list_all_iff)
  show ?thesis
    using assms(1) firstIdOrNull_nonempty [OF ne]
    by (simp add: deleteConversation_def Let_def)
qed

theorem delete_active_selects_first_witness:
  "activeConversationId store2 = Some (ustr ''a'') \<and> idsNonEmpty store2 \<and>
   activeConversationId (deleteConversation (ustr ''a'') store2) = Some (ustr ''b'') \<and>
   activeConversationId (deleteConversation (ustr ''b'')
      (deleteConversation (ustr ''a'') store2)) = None"
proof -
  have a1: "activeConversationId store2 = Some (ustr ''a'')" by (simp add: store2_def)
  have n1: "idsNonEmpty store2" by (simp add: store2_def idsNonEmpty_def sampleConversation_def ustr_def)
  let ?s = "deleteConversation (ustr ''a'') store2"
  have r1: "activeConversationId ?s = Some (ustr ''b'')"
    using delete_active_selects_first [OF a1 n1] by (simp add: store2_def sampleConversation_def ustr_def)
  have c1: "conversations ?s = [sampleConversation (ustr ''b'') (ustr ''B'')]"
    using delete_active_selects_first [OF a1 n1] by (simp add: store2_def sampleConversation_def ustr_def)
  have n2: "idsNonEmpty ?s" unfolding idsNonEmpty_def c1 by (simp add: sampleConversation_def ustr_def)
  have r2: "activeConversationId (deleteConversation (ustr ''b'') ?s) = None"
    using delete_active_selects_first [OF r1 n2] unfolding c1 by (simp add: sampleConversation_def)
  from a1 n1 r1 r2 show ?thesis by blast
qed

lemma find_map_upd:
  "(\<And>c. id_c (f c) = id_c c) \<Longrightarrow>
   findConversation i (map (\<lambda>conv. if id_c conv = i then f conv else conv) convs) =
   map_option f (findConversation i convs)"
  by (induction convs) (auto simp: findConversation_def)

lemma find_map_upd_other:
  "(\<And>c. id_c (f c) = id_c c) \<Longrightarrow> j \<noteq> i \<Longrightarrow>
   findConversation j (map (\<lambda>conv. if id_c conv = i then f conv else conv) convs) =
   findConversation j convs"
  by (induction convs) (auto simp: findConversation_def)

lemma titleOf_rename:
  "findConversation i (conversations st) = Some c \<Longrightarrow>
   titleOf i (renameConversation i t st) = Some t"
  by (simp add: titleOf_def renameConversation_def find_map_upd)

lemma titlesNonEmpty_rename:
  "t \<noteq> [] \<Longrightarrow> titlesNonEmpty st \<Longrightarrow> titlesNonEmpty (renameConversation i t st)"
  by (auto simp: titlesNonEmpty_def renameConversation_def list_all_iff)

text \<open>
  Claim C9. Committing an in-place rename whose input has a non-empty trim sets the title of
  the edited conversation to exactly the trimmed input; when the input trims to the empty
  string the store is left as it was; hence a store whose titles are all non-empty keeps that
  property across every rename.
\<close>

theorem rename_round_trip:
  "(editingId h = Some i \<and> i \<noteq> [] \<and> findConversation i (conversations st) = Some c \<and>
      trim (editTitle h) \<noteq> [] \<longrightarrow>
      titleOf i (snd (handleSaveEdit h st)) = Some (trim (editTitle h))) \<and>
   (trim (editTitle h) = [] \<longrightarrow> snd (handleSaveEdit h st) = st) \<and>
   (titlesNonEmpty st \<longrightarrow> titlesNonEmpty (snd (handleSaveEdit h st)))"
proof -
  have 1: "editingId h = Some i \<and> i \<noteq> [] \<and> findConversation i (conversations st) = Some c \<and>
      trim (editTitle h) \<noteq> [] \<longrightarrow>
      titleOf i (snd (handleSaveEdit h st)) = Some (trim (editTitle h))"
    by (auto simp: handleSaveEdit_def titleOf_rename)
  have 2: "trim (editTitle h) = [] \<longrightarrow> snd (handleSaveEdit h st) = st"
    by (simp add: handleSaveEdit_def split: option.split)
  have 3: "titlesNonEmpty st \<longrightarrow> titlesNonEmpty (snd (handleSaveEdit h st))"
    by (simp add: handleSaveEdit_def titlesNonEmpty_rename split: option.split)
  from 1 2 3 show ?thesis by blast
qed

theorem rename_round_trip_witness:
  "titleOf (ustr ''a'') (snd (handleSaveEdit
       (history0\<lparr>editingId := Some (ustr ''a''), editTitle := ustr ''  My chat ''\<rparr>) store2))
     = Some (ustr ''My chat'') \<and>
   snd (handleSaveEdit (history0\<lparr>editingId := Some (ustr ''a''), editTitle := ustr ''   ''\<rparr>) store2)
     = store2 \<and>
   titlesNonEmpty store2 \<and>
   titlesNonEmpty (snd (handleSaveEdit
       (history0\<lparr>editingId := Some (ustr ''a''), editTitle := ustr ''   ''\<rparr>) store2))"
proof -
  let ?h1 = "history0\<lparr>editingId := Some (ustr ''a''), editTitle := ustr ''  My chat ''\<rparr>"
  let ?h2 = "history0\<lparr>editingId := Some (ustr ''a''), editTitle := ustr ''   ''\<rparr>"
  have t1: "trim (editTitle ?h1) = ustr ''My chat''"
    by (simp add: trim_def trimStart_def trimEnd_def isJsSpace_def ustr_def)
  have t2: "trim (editTitle ?h2) = []"
    by (simp add: trim_def trimStart_def trimEnd_def isJsSpace_def ustr_def)
  have f: "findConversation (ustr ''a'') (conversations store2) = Some (sampleConversation (ustr ''a'') (ustr ''A''))"
    by (simp add: findConversation_def store2_def sampleConversation_def)
  have ne: "ustr ''a'' \<noteq> []" "ustr ''My chat'' \<noteq> []" by (simp_all add: ustr_def)
  have tn: "titlesNonEmpty store2"
    by (simp add: titlesNonEmpty_def store2_def sampleConversation_def ustr_def)
  have e1: "editingId ?h1 = Some (ustr ''a'')" by simp
  from rename_round_trip [of ?h1 "ustr ''a''" store2 "sampleConversation (ustr ''a'') (ustr ''A'')"] e1 ne f t1
  have c1: "titleOf (ustr ''a'') (snd (handleSaveEdit ?h1 store2)) = Some (ustr ''My chat'')"
    by simp
  from rename_round_trip [of ?h2 "ustr ''a''" store2 "sampleConversation (ustr ''a'') (ustr ''A'')"] t2 tn
  have c2: "snd (handleSaveEdit ?h2 store2) = store2"
    and c3: "titlesNonEmpty (snd (handleSaveEdit ?h2 store2))"
    by blast+
  from c1 c2 c3 tn show ?thesis by blast
qed

section \<open>Properties of the thread view\<close>

lemma enter_navigation:
  "msgs \<noteq> [] \<Longrightarrow>
   navigateToMessage msgs d navInit =
     \<lparr>currentMessageIndex = Some (int (length msgs) - 1), isNavigationMode = True\<rparr>"
  by (simp add: navigateToMessage_def navInit_def)

lemma step_in_range:
  "msgs \<noteq> [] \<Longrightarrow> cursorInRange msgs nav \<Longrightarrow> cursorInRange msgs (navigateToMessage msgs d nav)"
  by (cases d) (auto simp: cursorInRange_def navigateToMessage_def Let_def split: option.splits)

lemma steps_in_range:
  "msgs \<noteq> [] \<Longrightarrow> cursorInRange msgs nav \<Longrightarrow> cursorInRange msgs (navigateAll msgs ds nav)"
  by (induction ds arbitrary: nav) (simp_all add: step_in_range)

lemma up_k:
  "msgs \<noteq> [] \<Longrightarrow> currentMessageIndex nav = Some i \<Longrightarrow> 0 \<le> i \<Longrightarrow>
   currentMessageIndex ((navigateToMessage msgs Up ^^ k) nav) = Some (max 0 (i - int k))"
proof (induction k)
  case 0
  then show ?case by simp
next
  case (Suc k)
  then show ?case
    by (simp add: navigateToMessage_def Let_def)
qed

lemma up_to_top:
  assumes "msgs \<noteq> []"
  shows "currentMessageIndex
           ((navigateToMessage msgs Up ^^ (length msgs - 1)) (navigateToMessage msgs Up navInit))
         = Some 0"
proof -
  have e: "currentMessageIndex (navigateToMessage msgs Up navInit) = Some (int (length msgs) - 1)"
    using assms by (simp add: enter_navigation)
  have p: "0 \<le> int (length msgs) - 1" using assms by (cases msgs) simp_all
  have "int (length msgs) - 1 - int (length msgs - 1) = 0"
    using assms by (cases msgs) simp_all
  with up_k [OF assms e p, of "length msgs - 1"] show ?thesis by simp
qed

lemma down_from:
  "msgs \<noteq> [] \<Longrightarrow> currentMessageIndex nav = Some i \<Longrightarrow>
   currentMessageIndex (navigateToMessage msgs Down nav) = Some (min (int (length msgs) - 1) (i + 1))"
  by (simp add: navigateToMessage_def Let_def)

text \<open>
  Claim C5, as amended. Over a message list of length N with N at least 1, the first
  navigation action puts the view in navigation mode with the cursor at N - 1. Stepping up
  N - 1 times and then down once leaves the cursor at 1 when N is at least 2, and at 0 when
  N is 1, since the step down is capped at N - 1. After any sequence of steps the cursor is
  at least 0 and at most N - 1. Each step up from a cursor i gives the larger of 0 and i - 1,
  each step down gives the smaller of N - 1 and i + 1, and a step changes nothing else.
\<close>

theorem navigation_cursor:
  assumes "1 \<le> length msgs"
  shows "navigateToMessage msgs Up navInit =
           \<lparr>currentMessageIndex = Some (int (length msgs) - 1), isNavigationMode = True\<rparr> \<and>
         currentMessageIndex
           (navigateToMessage msgs Down
              ((navigateToMessage msgs Up ^^ (length msgs - 1)) (navigateToMessage msgs Up navInit)))
           = Some (if 2 \<le> length msgs then 1 else 0) \<and>
         cursorInRange msgs (navigateAll msgs ds (navigateToMessage msgs Up navInit)) \<and>
         (currentMessageIndex nav = Some i \<longrightarrow>
            navigateToMessage msgs Up nav = nav\<lparr>currentMessageIndex := Some (max 0 (i - 1))\<rparr> \<and>
            navigateToMessage msgs Down nav =
              nav\<lparr>currentMessageIndex := Some (min (int (length msgs) - 1) (i + 1))\<rparr>)"
proof -
  from assms have ne: "msgs \<noteq> []" by (cases msgs) simp_all
  have 1: "navigateToMessage msgs Up navInit =
           \<lparr>currentMessageIndex = Some (int (length msgs) - 1), isNavigationMode = True\<rparr>"
    by (rule enter_navigation [OF ne])
  have 2: "currentMessageIndex
           (navigateToMessage msgs Down
              ((navigateToMessage msgs Up ^^ (length msgs - 1)) (navigateToMessage msgs Up navInit)))
           = Some (if 2 \<le> length msgs then 1 else 0)"
    using down_from [OF ne up_to_top [OF ne]] assms by auto
  have "cursorInRange msgs (navigateToMessage msgs Up navInit)"
    using ne by (simp add: 1 cursorInRange_def)
  then have 3: "cursorInRange msgs (navigateAll msgs ds (navigateToMessage msgs Up navInit))"
    by (rule steps_in_range [OF ne])
  have 4: "currentMessageIndex nav = Some i \<longrightarrow>
            navigateToMessage msgs Up nav = nav\<lparr>currentMessageIndex := Some (max 0 (i - 1))\<rparr> \<and>
            navigateToMessage msgs Down nav =
              nav\<lparr>currentMessageIndex := Some (min (int (length msgs) - 1) (i + 1))\<rparr>"
    using ne by (simp add: navigateToMessage_def Let_def)
  from 1 2 3 4 show ?thesis by blast
qed

theorem navigation_cursor_witness:
  "(1::nat) \<le> length [sampleMessage (ustr ''m1''), sampleMessage (ustr ''m2''), sampleMessage (ustr ''m3'')] \<and>
   currentMessageIndex
     (navigateToMessage [sampleMessage (ustr ''m1''), sampleMessage (ustr ''m2''), sampleMessage (ustr ''m3'')] Down
        ((navigateToMessage [sampleMessage (ustr ''m1''), sampleMessage (ustr ''m2''), sampleMessage (ustr ''m3'')] Up ^^ 2)
           (navigateToMessage [sampleMessage (ustr ''m1''), sampleMessage (ustr ''m2''), sampleMessage (ustr ''m3'')] Up navInit)))
     = Some 1 \<and>
   currentMessageIndex \<lparr>currentMessageIndex = Some 2, isNavigationMode = True\<rparr> = Some 2 \<and>
   navigateToMessage [sampleMessage (ustr ''m1''), sampleMessage (ustr ''m2''), sampleMessage (ustr ''m3'')] Up
       \<lparr>currentMessageIndex = Some 2, isNavigationMode = True\<rparr>
     = \<lparr>currentMessageIndex = Some 1, isNavigationMode = True\<rparr> \<and>
   navigateToMessage [sampleMessage (ustr ''m1''), sampleMessage (ustr ''m2''), sampleMessage (ustr ''m3'')] Down
       \<lparr>currentMessageIndex = Some 2, isNavigationMode = True\<rparr>
     = \<lparr>currentMessageIndex = Some 2, isNavigationMode = True\<rparr> \<and>
   currentMessageIndex \<lparr>currentMessageIndex = Some 0, isNavigationMode = True\<rparr> = Some 0 \<and>
   navigateToMessage [sampleMessage (ustr ''m1''), sampleMessage (ustr ''m2''), sampleMessage (ustr ''m3'')] Up
       \<lparr>currentMessageIndex = Some 0, isNavigationMode = True\<rparr>
     = \<lparr>currentMessageIndex = Some 0, isNavigationMode = True\<rparr>"
proof -
  let ?ms = "[sampleMessage (ustr ''m1''), sampleMessage (ustr ''m2''), sampleMessage (ustr ''m3'')]"
  let ?n2 = "\<lparr>currentMessageIndex = Some 2, isNavigationMode = True\<rparr>"
  let ?n0 = "\<lparr>currentMessageIndex = Some 0, isNavigationMode = True\<rparr>"
  have h: "1 \<le> length ?ms" by simp
  have l: "length ?ms - 1 = 2" by simp
  have "currentMessageIndex
     (navigateToMessage ?ms Down
        ((navigateToMessage ?ms Up ^^ (length ?ms - 1)) (navigateToMessage ?ms Up navInit)))
     = Some (if 2 \<le> length ?ms then 1 else 0)"
    by (rule navigation_cursor [OF h, where ds = "[]", THEN conjunct2, THEN conjunct1])
  then have c1: "currentMessageIndex
     (navigateToMessage ?ms Down ((navigateToMessage ?ms Up ^^ 2) (navigateToMessage ?ms Up navInit)))
     = Some 1"
    unfolding l by simp
  have i2: "currentMessageIndex ?n2 = Some 2" and i0: "currentMessageIndex ?n0 = Some 0"
    by simp_all
  from navigation_cursor [OF h, where ds = "[]" and nav = ?n2 and i = 2] i2
  have c2: "navigateToMessage ?ms Up ?n2 = \<lparr>currentMessageIndex = Some 1, isNavigationMode = True\<rparr>"
    and c3: "navigateToMessage ?ms Down ?n2 = ?n2"
    by simp_all
  from navigation_cursor [OF h, where ds = "[]" and nav = ?n0 and i = 0] i0
  have c4: "navigateToMessage ?ms Up ?n0 = ?n0"
    by simp
  from h c1 i2 c2 c3 i0 c4 show ?thesis by blast
qed

text \<open>
  With a single message, stepping up zero times and down once leaves the cursor at 0, not at 1.
\<close>

theorem navigation_single_message_counterexample:
  "currentMessageIndex
     (navigateToMessage [sampleMessage (ustr ''m1'')] Down
        ((navigateToMessage [sampleMessage (ustr ''m1'')] Up ^^ (length [sampleMessage (ustr ''m1'')] - 1))
           (navigateToMessage [sampleMessage (ustr ''m1'')] Up navInit)))
     \<noteq> Some 1"
  by (simp add: navigateToMessage_def navInit_def Let_def)

lemma chatStep_messages:
  "ScrollToBottom \<in> set (snd (chatStep v (MessagesChanged ms))) \<longleftrightarrow> \<not> isNavigationMode (navState v)"
  by (auto simp: chatStep_def handleEvent_def messagesChanged_def autoScrollEffect_def
        scrollToMessageEffect_def Let_def split: option.splits)

lemma chatStep_typing:
  "ScrollToBottom \<in> set (snd (chatStep v (TypingChanged b))) \<longleftrightarrow>
     b \<noteq> isTyping v \<and> \<not> isNavigationMode (navState v)"
  by (auto simp: chatStep_def handleEvent_def messagesChanged_def autoScrollEffect_def
        scrollToMessageEffect_def Let_def split: option.splits)

text \<open>
  Claim C6. When the message list is replaced or the typing flag changes, the scroll to the
  newest position is issued exactly when the view is not in navigation mode: never in
  navigation mode, and always in follow mode (for the typing flag, when it really toggles).
\<close>

theorem auto_scroll_only_in_follow:
  "(isNavigationMode (navState v) \<longrightarrow>
      ScrollToBottom \<notin> set (snd (chatStep v (MessagesChanged ms))) \<and>
      ScrollToBottom \<notin> set (snd (chatStep v (TypingChanged b)))) \<and>
   (\<not> isNavigationMode (navState v) \<longrightarrow>
      ScrollToBottom \<in> set (snd (chatStep v (MessagesChanged ms))) \<and>
      (b \<noteq> isTyping v \<longrightarrow> ScrollToBottom \<in> set (snd (chatStep v (TypingChanged b)))))"
  by (simp add: chatStep_messages chatStep_typing)

theorem auto_scroll_only_in_follow_witness:
  "isNavigationMode (navState \<lparr>messages_v = [sampleMessage (ustr ''m1'')], isTyping = False,
       navState = \<lparr>currentMessageIndex = Some 0, isNavigationMode = True\<rparr>\<rparr>) \<and>
   ScrollToBottom \<notin> set (snd (chatStep
       \<lparr>messages_v = [sampleMessage (ustr ''m1'')], isTyping = False,
        navState = \<lparr>currentMessageIndex = Some 0, isNavigationMode = True\<rparr>\<rparr>
       (MessagesChanged [sampleMessage (ustr ''m1''), sampleMessage (ustr ''m2'')]))) \<and>
   \<not> isNavigationMode (navState \<lparr>messages_v = [sampleMessage (ustr ''m1'')], isTyping = False,
       navState = navInit\<rparr>) \<and>
   True \<noteq> isTyping \<lparr>messages_v = [sampleMessage (ustr ''m1'')], isTyping = False, navState = navInit\<rparr> \<and>
   ScrollToBottom \<in> set (snd (chatStep
       \<lparr>messages_v = [sampleMessage (ustr ''m1'')], isTyping = False, navState = navInit\<rparr>
       (TypingChanged True)))"
proof -
  let ?vn = "\<lparr>messages_v = [sampleMessage (ustr ''m1'')], isTyping = False,
        navState = \<lparr>currentMessageIndex = Some 0, isNavigationMode = True\<rparr>\<rparr>"
  let ?vf = "\<lparr>messages_v = [sampleMessage (ustr ''m1'')], isTyping = False, navState = navInit\<rparr>"
  have n: "isNavigationMode (navState ?vn)" by simp
  have f: "\<not> isNavigationMode (navState ?vf)" by (simp add: navInit_def)
  have t: "True \<noteq> isTyping ?vf" by simp
  from auto_scroll_only_in_follow
         [of ?vn "[sampleMessage (ustr ''m1''), sampleMessage (ustr ''m2'')]" True] n
  have c1: "ScrollToBottom \<notin> set (snd (chatStep ?vn
              (MessagesChanged [sampleMessage (ustr ''m1''), sampleMessage (ustr ''m2'')])))"
    by blast
  from auto_scroll_only_in_follow [of ?vf "[]" True] f t
  have c2: "ScrollToBottom \<in> set (snd (chatStep ?vf (TypingChanged True)))"
    by blast
  from n c1 f t c2 show ?thesis by blast
qed

section \<open>Properties of the message formatter\<close>

text \<open>
  Claim C7, as amended. The formatter turns the three lines
  \<^verbatim>\<open>**bold** line\<close>, \<^verbatim>\<open>- item one\<close> and \<^verbatim>\<open>```code\<close> into exactly three segments: a
  paragraph whose markup wraps \<open>bold\<close> in a strong element, a bulleted item with the marker
  and the blank after it removed, and a preformatted block holding \<open>code\<close>, which is the
  third line without its 3 leading characters, the backticks.
\<close>

theorem formatter_three_segments:
  "formatMessageContent formatterInput =
     [Paragraph (ustr ''<strong>bold</strong> line''), Bullet (ustr ''item one''),
      Pre (ustr ''code'')] \<and>
   formatMessageContent formatterInput ! 2 = Pre (drop 3 (ustr ''```code''))"
  by (simp add: formatMessageContent_def formatterInput_def formatLine_def ustr_def startsWith_def
        slice_def stripMarker_def trim_def trimStart_def trimEnd_def isJsSpace_def isLineTerminator_def)

text \<open>
  Stripping 4 leading characters from the third line would leave \<open>ode\<close>; the block holds
  \<open>code\<close>.
\<close>

theorem formatter_strips_three_counterexample:
  "formatMessageContent formatterInput ! 2 \<noteq> Pre (drop 4 (ustr ''```code''))"
  by (simp add: formatMessageContent_def formatterInput_def formatLine_def ustr_def startsWith_def
        slice_def stripMarker_def trim_def trimStart_def trimEnd_def isJsSpace_def isLineTerminator_def)

section \<open>Properties of the input bar\<close>

text \<open>
  Claim C8. A submit action (a click on the send button, or Enter without Shift in the
  textarea) does nothing when the draft is empty or only white space, when a request is in
  flight, or when voice capture is active; otherwise it hands the trimmed draft to
  \<^verbatim>\<open>onSendMessage\<close> and resets the draft to the empty string.
\<close>

theorem submit_guarded:
  assumes "isSubmit e"
  shows "inputStep e loading ib =
           (if trim (message ib) = [] \<or> loading \<or> isListening ib then (ib, [])
            else (ib\<lparr>message := []\<rparr>, [trim (message ib)]))"
  using assms
  by (cases e)
     (auto simp: isSubmit_def inputStep_def sendDisabled_def textareaDisabled_def handleKeyDown_def
        handleSubmit_def)

theorem submit_guarded_witness:
  "isSubmit (KeyDown Enter False) \<and>
   inputStep (KeyDown Enter False) False \<lparr>message = ustr '' hi there  '', isListening = False\<rparr> =
     (\<lparr>message = [], isListening = False\<rparr>, [ustr ''hi there'']) \<and>
   isSubmit ClickSend \<and>
   inputStep ClickSend False \<lparr>message = ustr ''hi'', isListening = True\<rparr> =
     (\<lparr>message = ustr ''hi'', isListening = True\<rparr>, [])"
proof -
  have s1: "isSubmit (KeyDown Enter False)" and s2: "isSubmit ClickSend"
    by (simp_all add: isSubmit_def)
  have t: "trim (ustr '' hi there  '') = ustr ''hi there''"
    by (simp add: trim_def trimStart_def trimEnd_def isJsSpace_def ustr_def)
  have n: "ustr ''hi there'' \<noteq> []" by (simp add: ustr_def)
  have c1: "inputStep (KeyDown Enter False) False \<lparr>message = ustr '' hi there  '', isListening = False\<rparr> =
     (\<lparr>message = [], isListening = False\<rparr>, [ustr ''hi there''])"
    using submit_guarded [OF s1, of False "\<lparr>message = ustr '' hi there  '', isListening = False\<rparr>"] t n
    by simp
  have c2: "inputStep ClickSend False \<lparr>message = ustr ''hi'', isListening = True\<rparr> =
     (\<lparr>message = ustr ''hi'', isListening = True\<rparr>, [])"
    using submit_guarded [OF s2, of False "\<lparr>message = ustr ''hi'', isListening = True\<rparr>"]
    by simp
  from s1 c1 s2 c2 show ?thesis by blast
qed

section \<open>Properties of sending a message\<close>

lemma find_updateMessages:
  "findConversation i (conversations (updateConversationMessages i ms st)) =
   map_option (\<lambda>c. c\<lparr>messages := ms\<rparr>) (findConversation i (conversations st))"
  by (simp add: updateConversationMessages_def find_map_upd)

lemma find_updateMetadata:
  "findConversation i (conversations (updateConversationMetadata i lm now st)) =
   map_option (\<lambda>c. c\<lparr>title := (if title c = ustr ''New Conversation'' then generateTitle lm else title c),
                      preview := substring0 50 lm @ (if length lm > 50 then ustr ''...'' else []),
                      timestamp_c := now\<rparr>) (findConversation i (conversations st))"
  by (simp add: updateConversationMetadata_def find_map_upd)

lemma find_isLoading:
  "findConversation i (conversations (st\<lparr>isLoading := b\<rparr>)) = findConversation i (conversations st)"
  by simp

lemma sendStart_active:
  assumes "activeConversationId st = Some aid" "aid \<noteq> []"
    "findConversation aid (conversations st) = Some c" "trim text \<noteq> []"
  shows "sendStart text clk st =
     Some ((updateConversationMessages aid (messages c @ [newUserMessage text clk]) st)\<lparr>isLoading := True\<rparr>,
           \<lparr>capturedId = aid, capturedMessages = messages c, userMessage = newUserMessage text clk,
            rawContent = text\<rparr>)"
  using assms by (simp add: sendStart_def activeMessages_def activeConversation_def Let_def)

lemma find_timerCallback:
  "capturedId p = aid \<Longrightarrow>
   findConversation aid (conversations (timerCallback p st)) =
   map_option (\<lambda>c. c\<lparr>messages := capturedMessages p @ [(userMessage p)\<lparr>status := Some Sent\<rparr>]\<rparr>)
     (findConversation aid (conversations st))"
  by (simp add: timerCallback_def find_updateMessages)

lemma find_afterResponse_ok:
  "capturedId p = aid \<Longrightarrow> callAI r = Inr resp \<Longrightarrow>
   findConversation aid (conversations (afterResponse p r clk st)) =
   map_option (\<lambda>c. c\<lparr>messages := capturedMessages p @
                          [(userMessage p)\<lparr>status := Some Sent\<rparr>, newAssistantMessage resp clk],
                      title := (if title c = ustr ''New Conversation''
                                then generateTitle (rawContent p) else title c),
                      preview := substring0 50 (rawContent p) @
                                 (if length (rawContent p) > 50 then ustr ''...'' else []),
                      timestamp_c := metadataTime clk\<rparr>)
     (findConversation aid (conversations st))"
  by (cases "findConversation aid (conversations st)")
     (simp_all add: afterResponse_def Let_def find_updateMessages find_updateMetadata)

lemma find_afterResponse_fail:
  "capturedId p = aid \<Longrightarrow> callAI r = Inl e \<Longrightarrow>
   findConversation aid (conversations (afterResponse p r clk st)) =
   map_option (\<lambda>c. c\<lparr>messages := capturedMessages p @ [(userMessage p)\<lparr>status := Some Error\<rparr>]\<rparr>)
     (findConversation aid (conversations st))"
  by (simp add: afterResponse_def find_updateMessages)


lemma send_success_timer_first:
  assumes "activeConversationId st = Some aid" "aid \<noteq> []"
    "findConversation aid (conversations st) = Some c" "trim text \<noteq> []"
    "callAI r = Inr resp"
  shows "findConversation aid (conversations (handleSendMessage text clk r TimerFirst st)) =
     Some (c\<lparr>messages := messages c @
                  [(newUserMessage text clk)\<lparr>status := Some Sent\<rparr>, newAssistantMessage resp clk],
              title := (if title c = ustr ''New Conversation'' then generateTitle text else title c),
              preview := substring0 50 text @ (if length text > 50 then ustr ''...'' else []),
              timestamp_c := metadataTime clk\<rparr>)"
  using assms(3,5)
  by (simp add: handleSendMessage_def sendStart_active [OF assms(1-4)] find_afterResponse_ok
        find_timerCallback find_updateMessages)

lemma send_success_response_first:
  assumes "activeConversationId st = Some aid" "aid \<noteq> []"
    "findConversation aid (conversations st) = Some c" "trim text \<noteq> []"
    "callAI r = Inr resp"
  shows "findConversation aid (conversations (handleSendMessage text clk r ResponseFirst st)) =
     Some (c\<lparr>messages := messages c @ [(newUserMessage text clk)\<lparr>status := Some Sent\<rparr>],
              title := (if title c = ustr ''New Conversation'' then generateTitle text else title c),
              preview := substring0 50 text @ (if length text > 50 then ustr ''...'' else []),
              timestamp_c := metadataTime clk\<rparr>)"
  using assms(3,5)
  by (simp add: handleSendMessage_def sendStart_active [OF assms(1-4)] find_afterResponse_ok
        find_timerCallback find_updateMessages)

lemma send_failure_timer_first:
  assumes "activeConversationId st = Some aid" "aid \<noteq> []"
    "findConversation aid (conversations st) = Some c" "trim text \<noteq> []"
    "callAI r = Inl e"
  shows "findConversation aid (conversations (handleSendMessage text clk r TimerFirst st)) =
     Some (c\<lparr>messages := messages c @ [(newUserMessage text clk)\<lparr>status := Some Error\<rparr>]\<rparr>)"
  using assms(3,5)
  by (simp add: handleSendMessage_def sendStart_active [OF assms(1-4)] find_afterResponse_fail
        find_timerCallback find_updateMessages)

lemma send_failure_response_first:
  assumes "activeConversationId st = Some aid" "aid \<noteq> []"
    "findConversation aid (conversations st) = Some c" "trim text \<noteq> []"
    "callAI r = Inl e"
  shows "findConversation aid (conversations (handleSendMessage text clk r ResponseFirst st)) =
     Some (c\<lparr>messages := messages c @ [(newUserMessage text clk)\<lparr>status := Some Sent\<rparr>]\<rparr>)"
  using assms(3,5)
  by (simp add: handleSendMessage_def sendStart_active [OF assms(1-4)] find_afterResponse_fail
        find_timerCallback find_updateMessages)


lemma storeDefault_active:
  "activeConversationId storeDefault = Some (ustr ''default'')"
  "ustr ''default'' \<noteq> []"
  "findConversation (ustr ''default'') (conversations storeDefault) =
     Some \<lparr>id_c = ustr ''default'', title = ustr ''New Conversation'', timestamp_c = 0,
           isPinned = False, preview = ustr ''Welcome to AI Assistant'', messages = []\<rparr>"
  by (simp_all add: storeDefault_def initEffect_def findConversation_def) (simp add: ustr_def)

lemma helloText_trim: "trim helloText \<noteq> []"
  by (simp add: helloText_def trim_def trimStart_def trimEnd_def isJsSpace_def ustr_def)

lemma helloText_title: "generateTitle helloText = ustr ''Hello world this is...''"
  by (simp add: helloText_def generateTitle_def ustr_def)

lemma callAI_ok: "callAI (HttpOk (Some (ustr ''Hi!''))) = Inr (ustr ''Hi!'')"
  by (simp add: callAI_def ustr_def)

lemma callAI_fail: "callAI NetworkError = Inl ApiError"
  by (simp add: callAI_def)

text \<open>
  Claim C1, evaluated. On the default store, sending \<open>Hello world this is a test\<close> with a
  successful reply gives the conversation the title \<open>Hello world this is...\<close> in both
  orders. When the timer callback runs before the reply is handled, the conversation ends
  with the user message (sent) and the assistant message. When the reply is handled before
  the timer callback runs, the callback writes the list of the earlier render plus the user
  message over it, and the conversation ends with the user message alone.
\<close>

theorem send_fast_response_drops_reply:
  "map_option summary (activeConversation
      (handleSendMessage helloText clock0 (HttpOk (Some (ustr ''Hi!''))) TimerFirst storeDefault))
     = Some ([(User, Some Sent), (Assistant, None)], ustr ''Hello world this is...'') \<and>
   map_option summary (activeConversation
      (handleSendMessage helloText clock0 (HttpOk (Some (ustr ''Hi!''))) ResponseFirst storeDefault))
     = Some ([(User, Some Sent)], ustr ''Hello world this is...'')"
proof -
  have a: "activeConversationId (handleSendMessage helloText clock0 r order storeDefault)
           = Some (ustr ''default'')" for r order
    by (cases order)
       (simp_all add: handleSendMessage_def
          sendStart_active [OF storeDefault_active helloText_trim] afterResponse_def timerCallback_def
          updateConversationMessages_def updateConversationMetadata_def Let_def storeDefault_active
          split: sum.split)
  show ?thesis
    by (simp add: activeConversation_def a
          send_success_timer_first [OF storeDefault_active helloText_trim callAI_ok]
          send_success_response_first [OF storeDefault_active helloText_trim callAI_ok]
          summary_def helloText_title newUserMessage_def newAssistantMessage_def)
qed

text \<open>
  Claim C2, as amended. After a whole round trip on an active conversation with a non-blank
  text, the user message sits right after the messages the conversation had, and its status
  is never \<open>sending\<close>: it is \<open>sent\<close> when the request succeeded, in either order of timer and
  reply, and \<open>error\<close> when the request failed and the timer callback ran before the failure
  was handled.
\<close>

theorem user_status_after_round_trip:
  assumes "activeConversationId st = Some aid" and "aid \<noteq> []"
    and "findConversation aid (conversations st) = Some c" and "trim text \<noteq> []"
  shows "\<exists>s. messageAt aid (length (messages c)) (handleSendMessage text clk r order st) =
               Some ((newUserMessage text clk)\<lparr>status := Some s\<rparr>) \<and>
             s \<noteq> Sending \<and>
             (callAI r \<noteq> Inl ApiError \<longrightarrow> s = Sent) \<and>
             (callAI r = Inl ApiError \<and> order = TimerFirst \<longrightarrow> s = Error)"
proof (cases "callAI r")
  case (Inl e)
  then have f: "callAI r = Inl ApiError" by (cases e) simp
  show ?thesis
  proof (cases order)
    case TimerFirst
    then show ?thesis
      using f send_failure_timer_first [OF assms Inl, of clk]
      by (intro exI [of _ Error]) (simp add: messageAt_def)
  next
    case ResponseFirst
    then show ?thesis
      using f send_failure_response_first [OF assms Inl, of clk]
      by (intro exI [of _ Sent]) (simp add: messageAt_def)
  qed
next
  case (Inr resp)
  show ?thesis
  proof (cases order)
    case TimerFirst
    then show ?thesis
      using Inr send_success_timer_first [OF assms Inr, of clk]
      by (intro exI [of _ Sent]) (simp add: messageAt_def)
  next
    case ResponseFirst
    then show ?thesis
      using Inr send_success_response_first [OF assms Inr, of clk]
      by (intro exI [of _ Sent]) (simp add: messageAt_def)
  qed
qed

theorem user_status_after_round_trip_witness:
  "activeConversationId storeDefault = Some (ustr ''default'') \<and> ustr ''default'' \<noteq> [] \<and>
   trim helloText \<noteq> [] \<and>
   map_option status (messageAt (ustr ''default'') 0
      (handleSendMessage helloText clock0 (HttpOk (Some (ustr ''Hi!''))) ResponseFirst storeDefault))
     = Some (Some Sent)"
proof -
  from user_status_after_round_trip [OF storeDefault_active helloText_trim,
         of clock0 "HttpOk (Some (ustr ''Hi!''))" ResponseFirst]
  obtain s where
    m: "messageAt (ustr ''default'') 0
          (handleSendMessage helloText clock0 (HttpOk (Some (ustr ''Hi!''))) ResponseFirst storeDefault)
        = Some ((newUserMessage helloText clock0)\<lparr>status := Some s\<rparr>)"
    and s: "callAI (HttpOk (Some (ustr ''Hi!''))) \<noteq> Inl ApiError \<longrightarrow> s = Sent"
    by auto
  from s have "s = Sent" by (simp add: callAI_ok)
  with m storeDefault_active(1,2) helloText_trim show ?thesis by simp
qed

text \<open>
  A failed request, handled after the timer callback, leaves the user message with status
  \<open>error\<close>, not \<open>sent\<close>.
\<close>

theorem failed_send_status_error_counterexample:
  "map_option status (messageAt (ustr ''default'') 0
      (handleSendMessage helloText clock0 NetworkError TimerFirst storeDefault))
     = Some (Some Error) \<and>
   map_option status (messageAt (ustr ''default'') 0
      (handleSendMessage helloText clock0 NetworkError TimerFirst storeDefault))
     \<noteq> Some (Some Sent)"
  by (simp add: messageAt_def
        send_failure_timer_first [OF storeDefault_active helloText_trim callAI_fail])

text \<open>A blank text, or no active conversation, leaves the store as it is.\<close>

lemma send_blank_noop:
  "trim text = [] \<or> activeConversationId st = None \<Longrightarrow> handleSendMessage text clk r order st = st"
  by (auto simp: handleSendMessage_def sendStart_def split: option.splits)

end
